theory Spec2Isabelle
  imports Main "HOL-Library.Finite_Map"
begin

section \<open>Python values, errors and strings\<close>

text \<open>
  The values that flow through the tag: URL arguments captured by the resolver, default
  arguments written in the urlconf, and whatever a template expression resolves to.
  HOL equality on \<open>pyval\<close> is Python's \<open>==\<close> on these values: lists compare
  elementwise, a tuple never equals a list, dictionaries compare as finite maps, and a
  function object equals only itself (\<open>PyFunc n\<close> is the function at address \<open>n\<close>).
\<close>

datatype pyval =
    PyNone
  | PyInt int
  | PyStr string
  | PyFunc nat
  | PyTuple "pyval list"
  | PyList "pyval list"
  | PyDict "(string, pyval) fmap"

type_synonym dict = "(string, pyval) fmap"

text \<open>
  An object is seen through its attribute dictionary. \<open>getattr\<close> with a default and
  plain attribute access (which raises when the attribute is missing) are the two reads
  the code performs.
\<close>

type_synonym request = "(string, pyval) fmap"

datatype error =
    TemplateSyntaxError string
  | KeyError string
  | AttributeError string
  | IndexError
  | VariableDoesNotExist string
  | UnicodeEncodeError
  | ViewDoesNotExist string
  | ImportError string

definition getattr :: "request \<Rightarrow> string \<Rightarrow> pyval \<Rightarrow> pyval" where
  "getattr obj attr dflt = (case fmlookup obj attr of None \<Rightarrow> dflt | Some v \<Rightarrow> v)"

definition attribute :: "request \<Rightarrow> string \<Rightarrow> error + pyval" where
  "attribute obj attr =
     (case fmlookup obj attr of None \<Rightarrow> Inl (AttributeError attr) | Some v \<Rightarrow> Inr v)"

text \<open>
  \<open>s.split(sep)\<close> with an explicit one-character separator: every occurrence of the
  separator cuts, empty fields are kept, and the result is never empty.
\<close>

fun split :: "char \<Rightarrow> string \<Rightarrow> string list" where
  "split sep [] = [[]]"
| "split sep (c # cs) =
     (if c = sep then [] # split sep cs
      else (case split sep cs of
              [] \<Rightarrow> [[c]]
            | w # ws \<Rightarrow> (c # w) # ws))"

text \<open>\<open>s.split(sep, 1)\<close> on a string that contains the separator: the two sides of its
  first occurrence.\<close>

definition split_once :: "char \<Rightarrow> string \<Rightarrow> string \<times> string" where
  "split_once sep s = (takeWhile (\<lambda>c. c \<noteq> sep) s, drop 1 (dropWhile (\<lambda>c. c \<noteq> sep) s))"

text \<open>
  The contents of a token are a text string, and a character here is a code point below
  256. \<open>k.strip()\<close> on a text string removes the white space at both ends; among these
  code points that is tab, line feed, vertical tab, form feed, carriage return, the
  four separators U+001C to U+001F, space, next line (U+0085) and no-break space
  (U+00A0).
\<close>

definition is_space :: "char \<Rightarrow> bool" where
  "is_space c = (c = CHR 0x09 \<or> c = CHR 0x0A \<or> c = CHR 0x0B \<or> c = CHR 0x0C
                 \<or> c = CHR 0x0D \<or> c = CHR 0x1C \<or> c = CHR 0x1D \<or> c = CHR 0x1E
                 \<or> c = CHR 0x1F \<or> c = CHR '' '' \<or> c = CHR 0x85 \<or> c = CHR 0xA0)"

definition strip :: "string \<Rightarrow> string" where
  "strip s = rev (dropWhile is_space (rev (dropWhile is_space s)))"

section \<open>The middleware: \<open>ActiveViewMiddleware.process_view\<close>\<close>

text \<open>
  \<open>view_args\<close> holds the items of the tuple of positional arguments that the framework
  passes; \<open>list(view_args)\<close> stores them as a list object. The method returns nothing,
  so its effect is the updated request.
\<close>

definition process_view :: "request \<Rightarrow> pyval \<Rightarrow> pyval list \<Rightarrow> pyval \<Rightarrow> request" where
  "process_view request view_func view_args view_kwargs =
     fmupd ''_view_kwargs'' view_kwargs
       (fmupd ''_view_args'' (PyList view_args)
         (fmupd ''_view_func'' view_func request))"

section \<open>The route table and the name index\<close>

text \<open>
  A view is what \<open>pattern.callback\<close> yields: a callable, known by its identity, or
  \<open>None\<close>. \<open>view_obj\<close> is the same object seen as a value, so that the identity test
  \<open>x is view\<close> is \<open>x = view_obj view\<close>: no other value is identical to \<open>None\<close> or to
  a function.
\<close>

datatype view = ViewNone | ViewFunc nat

fun view_obj :: "view \<Rightarrow> pyval" where
  "view_obj ViewNone = PyNone"
| "view_obj (ViewFunc n) = PyFunc n"

text \<open>
  An entry of \<open>resolver.url_patterns\<close> is either a \<open>RegexURLPattern\<close>, with its
  optional name, its callback, the optional private \<open>_callback_str\<close> and its default
  arguments, or a nested \<open>RegexURLResolver\<close> (an \<open>include\<close>) with its default keyword
  arguments and its own patterns.

  Two of these attributes are properties that import code when they are read, and raise
  when the import fails: \<open>pattern.callback\<close> imports the view, and
  \<open>resolver.url_patterns\<close> imports the urlconf module. Each is given here as what
  reading it yields: the value, or the error raised.
\<close>

datatype urlpattern =
    RegexURLPattern (name: "string option") (callback: "error + view")
                    (callback_str: "string option") (default_args: dict)
  | NestedResolver resolver
and resolver =
    RegexURLResolver (default_kwargs: dict) (url_patterns: "error + urlpattern list")

type_synonym patterns_map = "(string, view \<times> dict) fmap"

text \<open>
  The walk. Nothing in it catches an exception, so the first read that raises ends the
  walk with that error, and the map built so far is lost. \<open>pattern.callback\<close> is read
  only where an entry is stored: under the name when there is one, and again under the
  callback path when there is one.
\<close>

function get_patterns_map :: "resolver \<Rightarrow> dict option \<Rightarrow> error + patterns_map" where
  "get_patterns_map resolver default_args_opt =
     (let default_args = (case default_args_opt of None \<Rightarrow> fmempty | Some d \<Rightarrow> d) in
      case url_patterns resolver of
        Inl e \<Rightarrow> Inl e
      | Inr patterns \<Rightarrow>
          fold (\<lambda>pattern walked.
                  (case walked of
                     Inl e \<Rightarrow> Inl e
                   | Inr patterns_map \<Rightarrow>
                       (case pattern of
                          NestedResolver r \<Rightarrow>
                            (case get_patterns_map r (Some (default_args ++\<^sub>f default_kwargs r)) of
                               Inl e \<Rightarrow> Inl e
                             | Inr nested \<Rightarrow> Inr (patterns_map ++\<^sub>f nested))
                        | RegexURLPattern nm cb cbs dargs \<Rightarrow>
                            (let pattern_args = default_args ++\<^sub>f dargs in
                             case (case nm of
                                     None \<Rightarrow> Inr patterns_map
                                   | Some n \<Rightarrow>
                                       (case cb of
                                          Inl e \<Rightarrow> Inl e
                                        | Inr v \<Rightarrow> Inr (fmupd n (v, pattern_args) patterns_map))) of
                               Inl e \<Rightarrow> Inl e
                             | Inr named \<Rightarrow>
                                 (case cbs of
                                    None \<Rightarrow> Inr named
                                  | Some s \<Rightarrow>
                                      (case cb of
                                         Inl e \<Rightarrow> Inl e
                                       | Inr v \<Rightarrow> Inr (fmupd s (v, pattern_args) named)))))))
               patterns (Inr fmempty))"
  by pat_completeness auto
termination
proof (relation "measure (\<lambda>(r, d). size r)")
  show "wf (measure (\<lambda>(r :: resolver, d :: dict option). size r))"
    by simp
next
  fix resolver :: resolver and default_args_opt :: "dict option"
    and x :: dict and patterns :: "urlpattern list" and xa :: urlpattern
    and xb :: "error + patterns_map" and xc :: patterns_map and x2 :: resolver
  assume ups: "url_patterns resolver = Inr patterns"
    and mem: "xa \<in> set patterns" and inc: "xa = NestedResolver x2"
  obtain dk u where r: "resolver = RegexURLResolver dk u"
    by (cases resolver)
  from mem inc have "NestedResolver x2 \<in> set patterns"
    by simp
  then have "size (NestedResolver x2) \<le> size_list size patterns"
    by (rule size_list_estimation') simp
  with r ups show "((x2, Some (x ++\<^sub>f default_kwargs x2)), (resolver, default_args_opt))
                 \<in> measure (\<lambda>(r, d). size r)"
    by simp
qed

declare get_patterns_map.simps [simp del]

text \<open>
  The module-level \<open>_view_name_cache\<close> is \<open>None\<close> until a lookup has filled it. The
  route table returned by \<open>get_resolver(None)\<close> is an argument; it is walked only when
  the cache is still \<open>None\<close>. \<open>built_cache\<close> is what the test-and-assign at the head of
  \<open>_get_view_and_default_args\<close> comes to: the index then in the cache, or the error
  that the walk raised. The assignment happens after the walk has returned, so a walk
  that raises leaves the cache as it was, and the error leaves the function: the only
  handler is the one around the subscript. The result of the function is the returned
  pair or the raised error, together with the cache after the call.
\<close>

type_synonym cache = "patterns_map option"

definition built_cache :: "resolver \<Rightarrow> cache \<Rightarrow> error + patterns_map" where
  "built_cache root view_name_cache =
     (case view_name_cache of
        None \<Rightarrow> get_patterns_map root None
      | Some m \<Rightarrow> Inr m)"

definition get_view_and_default_args ::
    "resolver \<Rightarrow> string \<Rightarrow> cache \<Rightarrow> (error + view \<times> dict) \<times> cache" where
  "get_view_and_default_args root vname view_name_cache =
     (case built_cache root view_name_cache of
        Inl e \<Rightarrow> (Inl e, view_name_cache)
      | Inr built \<Rightarrow>
          ((case fmlookup built vname of
              Some entry \<Rightarrow> Inr entry
            | None \<Rightarrow> Inl (KeyError (vname @ '' does not match any urlpatterns''))),
           Some built))"

text \<open>A process performs lookups one after the other, each on the cache the previous
  one left; the route table offered to each call may differ.\<close>

fun lookups :: "(resolver \<times> string) list \<Rightarrow> cache \<Rightarrow> cache" where
  "lookups [] c = c"
| "lookups ((root, vname) # rest) c =
     lookups rest (snd (get_view_and_default_args root vname c))"

section \<open>The framework the tags are written against\<close>

text \<open>
  A node of the template tree is a \<open>TextNode\<close>, which renders to its text, or some other
  node of the framework, whose rendering is the framework's business. A \<open>NodeList\<close>
  renders to the concatenation of what its nodes render to.
\<close>

datatype 'n node = TextNode string | FrameworkNode 'n

type_synonym 'n NodeList = "'n node list"

datatype token = Token (contents: string)

text \<open>
  The operations of the framework that the tags call, taken as they are given:
  \<^item> \<open>resolve_variable(path, context)\<close>, which yields the object bound to a context
    variable or raises;
  \<^item> \<open>FilterExpression.resolve(context)\<close>, the value of a compiled tag argument;
  \<^item> \<open>Node.render(context)\<close> for the nodes that are not text;
  \<^item> \<open>parser.parse(parse_until)\<close>, which consumes tokens up to (not including) the first
    block token named in \<open>parse_until\<close> and returns the nodes read, or raises;
  \<^item> \<open>parser.compile_filter(token)\<close>, which compiles one argument or raises;
  \<^item> \<open>smart_str(s, 'ascii')\<close>, which encodes a keyword or raises;
  \<^item> \<open>get_resolver(None)\<close>, the root of the route table.

  Resolving a compiled argument and rendering a node are taken to return: an exception
  raised inside a template filter or inside another tag's node is not followed here.
\<close>

record ('ctx, 'e, 'n) django =
  resolve_variable :: "string \<Rightarrow> 'ctx \<Rightarrow> error + request"
  FilterExpression_resolve :: "'e \<Rightarrow> 'ctx \<Rightarrow> pyval"
  Node_render :: "'n \<Rightarrow> 'ctx \<Rightarrow> string"
  Parser_parse :: "string list \<Rightarrow> token list \<Rightarrow> error + ('n NodeList \<times> token list)"
  compile_filter :: "string \<Rightarrow> error + 'e"
  smart_str :: "string \<Rightarrow> error + string"
  get_resolver :: resolver

definition NodeList_render :: "('ctx, 'e, 'n) django \<Rightarrow> 'n NodeList \<Rightarrow> 'ctx \<Rightarrow> string" where
  "NodeList_render dj nodes context =
     concat (map (\<lambda>nd. case nd of
                          TextNode s \<Rightarrow> s
                        | FrameworkNode n \<Rightarrow> Node_render dj n context) nodes)"

text \<open>The parser's token queue: \<open>next_token\<close> pops the first token,
  \<open>delete_first_token\<close> drops it.\<close>

definition next_token :: "token list \<Rightarrow> error + (token \<times> token list)" where
  "next_token tokens = (case tokens of [] \<Rightarrow> Inl IndexError | t # ts \<Rightarrow> Inr (t, ts))"

definition delete_first_token :: "token list \<Rightarrow> error + token list" where
  "delete_first_token tokens = (case tokens of [] \<Rightarrow> Inl IndexError | t # ts \<Rightarrow> Inr ts)"

section \<open>\<open>ActiveNode\<close> and its rendering\<close>

record ('e, 'n) ActiveNode =
  request_var :: string
  view_name :: string
  args :: "'e list"
  kwargs :: "(string, 'e) fmap"
  active_nodes :: "'n NodeList"
  inactive_nodes :: "'n NodeList option"

text \<open>The tail of \<open>render\<close>: the else block when there is one, the empty string
  otherwise.\<close>

definition inactive_branch ::
    "('ctx, 'e, 'n) django \<Rightarrow> ('e, 'n) ActiveNode \<Rightarrow> 'ctx \<Rightarrow> string" where
  "inactive_branch dj self context =
     (case inactive_nodes self of
        Some nodes \<Rightarrow> NodeList_render dj nodes context
      | None \<Rightarrow> [])"

definition resolved_args_of ::
    "('ctx, 'e, 'n) django \<Rightarrow> ('e, 'n) ActiveNode \<Rightarrow> 'ctx \<Rightarrow> pyval list" where
  "resolved_args_of dj self context =
     map (\<lambda>arg. FilterExpression_resolve dj arg context) (args self)"

text \<open>The dictionary of the resolved keyword arguments, then \<open>update(default_args)\<close>.\<close>

definition resolved_kwargs_of ::
    "('ctx, 'e, 'n) django \<Rightarrow> ('e, 'n) ActiveNode \<Rightarrow> 'ctx \<Rightarrow> dict \<Rightarrow> dict" where
  "resolved_kwargs_of dj self context dargs =
     fmmap (\<lambda>v. FilterExpression_resolve dj v context) (kwargs self) ++\<^sub>f dargs"

definition render ::
    "('ctx, 'e, 'n) django \<Rightarrow> ('e, 'n) ActiveNode \<Rightarrow> 'ctx \<Rightarrow> cache
       \<Rightarrow> (error + string) \<times> cache" where
  "render dj self context view_name_cache =
     (case resolve_variable dj (request_var self) context of
        Inl e \<Rightarrow> (Inl e, view_name_cache)
      | Inr request \<Rightarrow>
          (case get_view_and_default_args (get_resolver dj) (view_name self) view_name_cache of
             (Inl e, cache') \<Rightarrow> (Inl e, cache')
           | (Inr (view, dargs), cache') \<Rightarrow>
               (if getattr request ''_view_func'' PyNone = view_obj view then
                  (let resolved_args = resolved_args_of dj self context in
                   case attribute request ''_view_args'' of
                     Inl e \<Rightarrow> Inl e
                   | Inr stashed_args \<Rightarrow>
                       if stashed_args = PyList resolved_args then
                         (let resolved_kwargs = resolved_kwargs_of dj self context dargs in
                          case attribute request ''_view_kwargs'' of
                            Inl e \<Rightarrow> Inl e
                          | Inr stashed_kwargs \<Rightarrow>
                              if stashed_kwargs = PyDict resolved_kwargs
                              then Inr (NodeList_render dj (active_nodes self) context)
                              else Inr (inactive_branch dj self context))
                       else Inr (inactive_branch dj self context))
                else Inr (inactive_branch dj self context),
                cache')))"

section \<open>Parsing the tags\<close>

text \<open>
  One comma-separated piece of a tag argument. In the assignment
  \<open>kwargs[smart_str(k, 'ascii')] = parser.compile_filter(v)\<close> the right-hand side is
  evaluated first.
\<close>

definition parse_url_arg ::
    "('ctx, 'e, 'n) django \<Rightarrow> string \<Rightarrow> 'e list \<times> (string, 'e) fmap
       \<Rightarrow> error + ('e list \<times> (string, 'e) fmap)" where
  "parse_url_arg dj arg acc =
     (case acc of (as, kws) \<Rightarrow>
        if CHR ''='' \<in> set arg then
          (case split_once CHR ''='' arg of (k, v) \<Rightarrow>
             (case compile_filter dj v of
                Inl e \<Rightarrow> Inl e
              | Inr f \<Rightarrow>
                  (case smart_str dj (strip k) of
                     Inl e \<Rightarrow> Inl e
                   | Inr k' \<Rightarrow> Inr (as, fmupd k' f kws))))
        else if arg \<noteq> [] then
          (case compile_filter dj arg of
             Inl e \<Rightarrow> Inl e
           | Inr f \<Rightarrow> Inr (as @ [f], kws))
        else Inr (as, kws))"

fun parse_url_arg_list ::
    "('ctx, 'e, 'n) django \<Rightarrow> string list \<Rightarrow> 'e list \<times> (string, 'e) fmap
       \<Rightarrow> error + ('e list \<times> (string, 'e) fmap)" where
  "parse_url_arg_list dj [] acc = Inr acc"
| "parse_url_arg_list dj (arg # rest) acc =
     (case parse_url_arg dj arg acc of
        Inl e \<Rightarrow> Inl e
      | Inr acc' \<Rightarrow> parse_url_arg_list dj rest acc')"

fun parse_url_bits ::
    "('ctx, 'e, 'n) django \<Rightarrow> string list \<Rightarrow> 'e list \<times> (string, 'e) fmap
       \<Rightarrow> error + ('e list \<times> (string, 'e) fmap)" where
  "parse_url_bits dj [] acc = Inr acc"
| "parse_url_bits dj (b # bits) acc =
     (case parse_url_arg_list dj (split CHR '','' b) acc of
        Inl e \<Rightarrow> Inl e
      | Inr acc' \<Rightarrow> parse_url_bits dj bits acc')"

definition parse_url_args ::
    "('ctx, 'e, 'n) django \<Rightarrow> string list \<Rightarrow> error + ('e list \<times> (string, 'e) fmap)" where
  "parse_url_args dj bits = parse_url_bits dj bits ([], fmempty)"

text \<open>The first lines of \<open>do_ifactive\<close>: the active block, and the else block when the
  token that ended the active block is \<open>else\<close>.\<close>

definition parse_blocks ::
    "('ctx, 'e, 'n) django \<Rightarrow> token list
       \<Rightarrow> error + (('n NodeList \<times> 'n NodeList option) \<times> token list)" where
  "parse_blocks dj parser =
     (case Parser_parse dj [''endifactive'', ''else''] parser of
        Inl e \<Rightarrow> Inl e
      | Inr (active, p1) \<Rightarrow>
          (case next_token p1 of
             Inl e \<Rightarrow> Inl e
           | Inr (end_token, p2) \<Rightarrow>
               if contents end_token = ''else'' then
                 (case Parser_parse dj [''endifactive''] p2 of
                    Inl e \<Rightarrow> Inl e
                  | Inr (inactive, p3) \<Rightarrow>
                      (case delete_first_token p3 of
                         Inl e \<Rightarrow> Inl e
                       | Inr p4 \<Rightarrow> Inr ((active, Some inactive), p4)))
               else Inr ((active, None), p2)))"

definition arity_message :: "string \<Rightarrow> string" where
  "arity_message tag =
     [CHR 0x27] @ tag @ [CHR 0x27] @ '' takes at least two arguments''
       @ '' (context variable with the request, and path to a view)''"

definition do_ifactive ::
    "('ctx, 'e, 'n) django \<Rightarrow> token list \<Rightarrow> token
       \<Rightarrow> error + (('e, 'n) ActiveNode \<times> token list)" where
  "do_ifactive dj parser tok =
     (case parse_blocks dj parser of
        Inl e \<Rightarrow> Inl e
      | Inr ((active, inactive), parser') \<Rightarrow>
          (let tag_args = split CHR '' '' (contents tok) in
           if length tag_args < 3 then
             Inl (TemplateSyntaxError (arity_message (tag_args ! 0)))
           else
             (case parse_url_args dj (drop 3 tag_args) of
                Inl e \<Rightarrow> Inl e
              | Inr (as, kws) \<Rightarrow>
                  Inr (\<lparr>request_var = tag_args ! 1, view_name = tag_args ! 2,
                        args = as, kwargs = kws,
                        active_nodes = active, inactive_nodes = inactive\<rparr>,
                       parser'))))"

text \<open>The text of the class attribute; \<open>CHR 0x22\<close> is the double quote.\<close>

definition active_class :: string where
  "active_class = ''class='' @ [CHR 0x22] @ ''active'' @ [CHR 0x22]"

text \<open>\<open>do_activeif\<close> reads no block: the node list is the single text node, and there is
  no else block. \<open>tag_args[1]\<close> raises when the tag has no argument.\<close>

definition do_activeif ::
    "('ctx, 'e, 'n) django \<Rightarrow> token \<Rightarrow> error + ('e, 'n) ActiveNode" where
  "do_activeif dj tok =
     (let tag_args = split CHR '' '' (contents tok) in
      if length tag_args < 2 then Inl IndexError
      else
        (case parse_url_args dj (drop 2 tag_args) of
           Inl e \<Rightarrow> Inl e
         | Inr (as, kws) \<Rightarrow>
             Inr \<lparr>request_var = ''request'', view_name = tag_args ! 1,
                  args = as, kwargs = kws,
                  active_nodes = [TextNode active_class],
                  inactive_nodes = None\<rparr>))"

section \<open>What the specification speaks of\<close>

text \<open>
  The three checks of the specification: the stashed view function is the very object
  the name resolves to, the stashed positional arguments equal the resolved ones, and
  the stashed keyword arguments equal the resolved ones merged with the default
  arguments of the urlconf.
\<close>

definition view_check :: "request \<Rightarrow> view \<Rightarrow> bool" where
  "view_check request view = (getattr request ''_view_func'' PyNone = view_obj view)"

definition args_check :: "request \<Rightarrow> pyval list \<Rightarrow> bool" where
  "args_check request resolved_args =
     (fmlookup request ''_view_args'' = Some (PyList resolved_args))"

definition kwargs_check :: "request \<Rightarrow> dict \<Rightarrow> bool" where
  "kwargs_check request resolved_kwargs =
     (fmlookup request ''_view_kwargs'' = Some (PyDict resolved_kwargs))"

text \<open>
  The stashed arguments can be read wherever \<open>render\<close> reads them: \<open>_view_args\<close> once
  the view check has passed, \<open>_view_kwargs\<close> once the first two checks have passed.
\<close>

definition stash_readable :: "request \<Rightarrow> view \<Rightarrow> pyval list \<Rightarrow> bool" where
  "stash_readable request view resolved_args =
     ((view_check request view \<longrightarrow> ''_view_args'' |\<in>| fmdom request) \<and>
      (view_check request view \<and> args_check request resolved_args
         \<longrightarrow> ''_view_kwargs'' |\<in>| fmdom request))"

text \<open>
  The route table as the specification reads it: the list, in the order of the walk, of
  the keys a pattern is known by (its name, then its callback path) with the pattern's
  callback and its default arguments, where \<open>inherited\<close> are the default keyword
  arguments of the enclosing nested resolvers and the inner dictionary wins on a key
  that both have. Where a read of the walk raises there is no list: the outcome is the
  first error in the order of the walk. \<open>collect\<close> joins the lists of the patterns of
  one resolver up to the first error.
\<close>

fun collect :: "(error + 'a list) list \<Rightarrow> error + 'a list" where
  "collect [] = Inr []"
| "collect (x # xs) =
     (case x of
        Inl e \<Rightarrow> Inl e
      | Inr es \<Rightarrow> (case collect xs of Inl e \<Rightarrow> Inl e | Inr rest \<Rightarrow> Inr (es @ rest)))"

fun pattern_entries :: "dict \<Rightarrow> urlpattern \<Rightarrow> error + (string \<times> view \<times> dict) list"
  and resolver_entries :: "dict \<Rightarrow> resolver \<Rightarrow> error + (string \<times> view \<times> dict) list" where
  "pattern_entries inherited (RegexURLPattern nm cb cbs dargs) =
     (if nm = None \<and> cbs = None then Inr []
      else (case cb of
              Inl e \<Rightarrow> Inl e
            | Inr v \<Rightarrow>
                Inr ((case nm of None \<Rightarrow> [] | Some n \<Rightarrow> [(n, v, inherited ++\<^sub>f dargs)]) @
                     (case cbs of None \<Rightarrow> [] | Some s \<Rightarrow> [(s, v, inherited ++\<^sub>f dargs)]))))"
| "pattern_entries inherited (NestedResolver r) =
     resolver_entries (inherited ++\<^sub>f default_kwargs r) r"
| "resolver_entries inherited (RegexURLResolver dk (Inl e)) = Inl e"
| "resolver_entries inherited (RegexURLResolver dk (Inr ps)) =
     collect (map (pattern_entries inherited) ps)"

text \<open>The dictionary that a list of entries gives when they are stored one after the
  other on top of \<open>acc\<close>: a later entry replaces an earlier one with the same key.\<close>

definition index_of_entries ::
    "error + (string \<times> view \<times> dict) list \<Rightarrow> patterns_map \<Rightarrow> error + patterns_map" where
  "index_of_entries walked acc =
     (case walked of Inl e \<Rightarrow> Inl e | Inr es \<Rightarrow> Inr (acc ++\<^sub>f fmap_of_list (rev es)))"

section \<open>A small site\<close>

text \<open>
  A route table with a named pattern at the top and an included resolver whose pattern
  repeats one of the resolver's default keys; a route table with two patterns of one
  name; a route table whose second pattern names a view that cannot be imported; and a
  framework instance in which a context is a dictionary, a tag argument is a variable
  name (one that starts with an underscore is refused when compiled, one that is not
  bound resolves to the empty string), a node of the framework renders to its own text,
  and the parser takes every token before the awaited one for a node.
\<close>

definition site_urlconf :: resolver where
  "site_urlconf =
     RegexURLResolver fmempty
       (Inr [RegexURLPattern (Some ''home'') (Inr (ViewFunc 1)) None fmempty,
             NestedResolver
               (RegexURLResolver
                  (fmap_of_list [(''section'', PyStr ''blog''), (''page'', PyInt 1)])
                  (Inr [RegexURLPattern (Some ''archive'') (Inr (ViewFunc 2))
                          (Some ''blog.views.archive'')
                          (fmap_of_list [(''page'', PyInt 2)])]))])"

definition twice_named_urlconf :: resolver where
  "twice_named_urlconf =
     RegexURLResolver fmempty
       (Inr [RegexURLPattern (Some ''entry'') (Inr (ViewFunc 1)) None fmempty,
             RegexURLPattern (Some ''entry'') (Inr (ViewFunc 2)) None fmempty])"

definition broken_urlconf :: resolver where
  "broken_urlconf =
     RegexURLResolver fmempty
       (Inr [RegexURLPattern (Some ''home'') (Inr (ViewFunc 1)) None fmempty,
             RegexURLPattern (Some ''feed'') (Inl (ViewDoesNotExist ''feeds.views.latest''))
               (Some ''feeds.views.latest'') fmempty])"

text \<open>The index of the small site.\<close>

definition site_index :: patterns_map where
  "site_index =
     fmap_of_list
       [(''home'', ViewFunc 1, fmempty),
        (''archive'', ViewFunc 2,
           fmap_of_list [(''section'', PyStr ''blog''), (''page'', PyInt 2)]),
        (''blog.views.archive'', ViewFunc 2,
           fmap_of_list [(''section'', PyStr ''blog''), (''page'', PyInt 2)])]"

fun site_parse :: "string list \<Rightarrow> token list \<Rightarrow> error + (string NodeList \<times> token list)" where
  "site_parse parse_until [] = Inl (TemplateSyntaxError ''Unclosed tag'')"
| "site_parse parse_until (t # ts) =
     (if contents t \<in> set parse_until then Inr ([], t # ts)
      else (case site_parse parse_until ts of
              Inl e \<Rightarrow> Inl e
            | Inr (nodes, rest) \<Rightarrow> Inr (FrameworkNode (contents t) # nodes, rest)))"

definition site_compile_filter :: "string \<Rightarrow> error + string" where
  "site_compile_filter s =
     (case s of
        [] \<Rightarrow> Inr s
      | c # cs \<Rightarrow>
          if c = CHR ''_''
          then Inl (TemplateSyntaxError
                     ''Variables and attributes may not begin with underscores'')
          else Inr s)"

definition site_django :: "((string, pyval) fmap, string, string) django" where
  "site_django =
     \<lparr>resolve_variable =
        (\<lambda>path context.
           case fmlookup context path of
             None \<Rightarrow> Inl (VariableDoesNotExist path)
           | Some (PyDict attrs) \<Rightarrow> Inr attrs
           | Some other \<Rightarrow> Inr fmempty),
      FilterExpression_resolve =
        (\<lambda>e context. case fmlookup context e of None \<Rightarrow> PyStr [] | Some v \<Rightarrow> v),
      Node_render = (\<lambda>n context. n),
      Parser_parse = site_parse,
      compile_filter = site_compile_filter,
      smart_str = Inr,
      get_resolver = site_urlconf\<rparr>"

text \<open>The request as the middleware leaves it when the archive view runs with no
  positional argument, and a context that binds it.\<close>

definition archive_request :: request where
  "archive_request =
     process_view (fmap_of_list [(''path'', PyStr ''/blog/'')]) (PyFunc 2) []
       (PyDict (fmap_of_list [(''section'', PyStr ''blog''), (''page'', PyInt 2)]))"

definition archive_context :: "(string, pyval) fmap" where
  "archive_context =
     fmap_of_list [(''request'', PyDict archive_request), (''two'', PyInt 2),
                   (''seven'', PyInt 7)]"




text \<open>A request that never went through the middleware, and one that carries the view
  function alone.\<close>

definition bare_request :: request where
  "bare_request = fmap_of_list [(''path'', PyStr ''/blog/'')]"

definition bare_context :: "(string, pyval) fmap" where
  "bare_context = fmap_of_list [(''request'', PyDict bare_request)]"

definition half_stashed_context :: "(string, pyval) fmap" where
  "half_stashed_context =
     fmap_of_list [(''request'', PyDict (fmap_of_list [(''_view_func'', PyFunc 2)]))]"

text \<open>
  An \<open>ifactive\<close> node for the archive view whose tag passes \<open>page=seven\<close>, the same node
  with a name the route table does not have and with the name of the home view, and the
  nodes that \<open>activeif\<close> builds for three names.
\<close>

definition archive_node :: "(string, string) ActiveNode" where
  "archive_node =
     \<lparr>request_var = ''request'', view_name = ''archive'', args = [],
      kwargs = fmap_of_list [(''page'', ''seven'')],
      active_nodes = [TextNode ''on''], inactive_nodes = Some [TextNode ''off'']\<rparr>"

definition unknown_node :: "(string, string) ActiveNode" where
  "unknown_node = archive_node\<lparr>view_name := ''nosuch''\<rparr>"

definition home_node :: "(string, string) ActiveNode" where
  "home_node = archive_node\<lparr>view_name := ''home''\<rparr>"

definition activeif_archive_node :: "(string, string) ActiveNode" where
  "activeif_archive_node =
     \<lparr>request_var = ''request'', view_name = ''archive'', args = [], kwargs = fmempty,
      active_nodes = [TextNode active_class], inactive_nodes = None\<rparr>"

definition activeif_home_node :: "(string, string) ActiveNode" where
  "activeif_home_node = activeif_archive_node\<lparr>view_name := ''home''\<rparr>"

definition activeif_unknown_node :: "(string, string) ActiveNode" where
  "activeif_unknown_node = activeif_archive_node\<lparr>view_name := ''nosuch''\<rparr>"

text \<open>The tokens that follow an \<open>ifactive\<close> tag with both blocks.\<close>

definition ifactive_tokens :: "token list" where
  "ifactive_tokens =
     [Token ''yes'', Token ''else'', Token ''no'', Token ''endifactive'', Token ''tail'']"

section \<open>The middleware stashes three attributes\<close>

text \<open>
  Claim C5. For every request processed, \<open>process_view\<close> stores the view function, the
  positional arguments as a list, and the keyword arguments under the attributes
  \<open>_view_func\<close>, \<open>_view_args\<close> and \<open>_view_kwargs\<close>, and every other attribute of the
  request reads as it did before.
\<close>

theorem process_view_stashes:
  "fmlookup (process_view request view_func view_args view_kwargs) ''_view_func''
     = Some view_func \<and>
   fmlookup (process_view request view_func view_args view_kwargs) ''_view_args''
     = Some (PyList view_args) \<and>
   fmlookup (process_view request view_func view_args view_kwargs) ''_view_kwargs''
     = Some view_kwargs \<and>
   (\<forall>attr. attr \<notin> {''_view_func'', ''_view_args'', ''_view_kwargs''} \<longrightarrow>
      fmlookup (process_view request view_func view_args view_kwargs) attr
        = fmlookup request attr)"
  by (simp add: process_view_def)

text \<open>On the archive request: the path is untouched and the empty tuple is stored as the
  empty list.\<close>

theorem process_view_stashes_witness:
  "''path'' \<notin> {''_view_func'', ''_view_args'', ''_view_kwargs''} \<and>
   fmlookup archive_request ''path'' = Some (PyStr ''/blog/'') \<and>
   fmlookup archive_request ''_view_func'' = Some (PyFunc 2) \<and>
   fmlookup archive_request ''_view_args'' = Some (PyList [])"
  using process_view_stashes [of "fmap_of_list [(''path'', PyStr ''/blog/'')]" "PyFunc 2" "[]"
      "PyDict (fmap_of_list [(''section'', PyStr ''blog''), (''page'', PyInt 2)])"]
  by (simp add: archive_request_def fmlookup_of_list)

section \<open>The index is the route table read last entry first\<close>

lemma fmap_of_list_append:
  "fmap_of_list (xs @ ys) = fmap_of_list ys ++\<^sub>f fmap_of_list xs"
  by (rule fmap_ext) (simp add: fmlookup_of_list map_add_def fmlookup_dom_iff split: option.splits)

text \<open>A loop whose every step adds the entries of one pattern, and which stops at the
  first error, adds in all the entries of all the patterns up to the first error.\<close>

lemma fold_as_entries:
  assumes "\<And>p acc. p \<in> set ps \<Longrightarrow> f p (Inr acc) = index_of_entries (g p) acc"
      and "\<And>p e. f p (Inl e) = Inl e"
  shows "fold f ps (Inr acc) = index_of_entries (collect (map g ps)) acc"
  using assms(1)
proof (induction ps arbitrary: acc)
  case Nil
  then show ?case by (simp add: index_of_entries_def fmap_of_list_simps)
next
  case (Cons p ps)
  have stuck: "fold f qs (Inl e) = Inl e" for qs e
    by (induction qs) (simp_all add: assms(2))
  show ?case
  proof (cases "g p")
    case (Inl e)
    with Cons.prems [of p acc] show ?thesis
      by (simp add: index_of_entries_def stuck)
  next
    case (Inr es)
    with Cons.prems [of p acc] have "f p (Inr acc) = Inr (acc ++\<^sub>f fmap_of_list (rev es))"
      by (simp add: index_of_entries_def)
    moreover have "fold f ps (Inr (acc ++\<^sub>f fmap_of_list (rev es)))
        = index_of_entries (collect (map g ps)) (acc ++\<^sub>f fmap_of_list (rev es))"
      using Cons.prems by (intro Cons.IH) simp
    ultimately show ?thesis
      using Inr by (simp add: index_of_entries_def fmap_of_list_append split: sum.splits)
  qed
qed

lemma pattern_step_as_entries:
  "(case (case nm of None \<Rightarrow> Inr acc
          | Some n \<Rightarrow> (case cb of Inl e \<Rightarrow> Inl e | Inr v \<Rightarrow> Inr (fmupd n (v, pa) acc))) of
      Inl e \<Rightarrow> Inl e
    | Inr named \<Rightarrow>
        (case cbs of None \<Rightarrow> Inr named
         | Some s \<Rightarrow> (case cb of Inl e \<Rightarrow> Inl e | Inr v \<Rightarrow> Inr (fmupd s (v, pa) named))))
   = index_of_entries
       (if nm = None \<and> cbs = None then Inr []
        else (case cb of
                Inl e \<Rightarrow> Inl e
              | Inr v \<Rightarrow>
                  Inr ((case nm of None \<Rightarrow> [] | Some n \<Rightarrow> [(n, v, pa)]) @
                       (case cbs of None \<Rightarrow> [] | Some s \<Rightarrow> [(s, v, pa)])))) acc"
proof (cases cb)
  case (Inl e)
  then show ?thesis
    by (simp add: index_of_entries_def fmap_of_list_simps split: option.splits)
next
  case (Inr v)
  have two: "fmupd s (v, pa) (fmupd n (v, pa) acc)
               = acc ++\<^sub>f fmap_of_list [(s, v, pa), (n, v, pa)]" for n s
    by (rule fmap_ext) (simp add: fmlookup_of_list)
  have one: "fmupd k (v, pa) acc = acc ++\<^sub>f fmap_of_list [(k, v, pa)]" for k
    by (rule fmap_ext) (simp add: fmlookup_of_list)
  have none: "acc = acc ++\<^sub>f fmap_of_list []"
    by (rule fmap_ext) (simp add: fmlookup_of_list)
  show ?thesis
  proof (cases nm)
    case None
    note nm = this
    show ?thesis
    proof (cases cbs)
      case None
      with nm Inr none show ?thesis
        by (simp only: index_of_entries_def option.case sum.case simp_thms if_True rev.simps)
    next
      case (Some s)
      with nm Inr one [of s] show ?thesis
        by (simp only: index_of_entries_def option.case sum.case simp_thms if_False
              option.distinct rev.simps append_Nil)
    qed
  next
    case (Some n)
    note nm = this
    show ?thesis
    proof (cases cbs)
      case None
      with nm Inr one [of n] show ?thesis
        by (simp only: index_of_entries_def option.case sum.case simp_thms if_False
              option.distinct rev.simps append_Nil append_Nil2)
    next
      case (Some s)
      with nm Inr two [of s n] show ?thesis
        by (simp only: index_of_entries_def option.case sum.case simp_thms if_False
              option.distinct rev.simps append_Nil append.simps)
    qed
  qed
qed

lemma get_patterns_map_entries:
  "get_patterns_map r dflt =
     index_of_entries (resolver_entries (case dflt of None \<Rightarrow> fmempty | Some d \<Rightarrow> d) r) fmempty"
proof (induction r dflt rule: get_patterns_map.induct)
  case (1 resolver default_args_opt)
  define inherited where "inherited = (case default_args_opt of None \<Rightarrow> fmempty | Some d \<Rightarrow> d)"
  obtain dk ups where r: "resolver = RegexURLResolver dk ups"
    by (cases resolver)
  show ?case
  proof (cases ups)
    case (Inl e)
    with r show ?thesis
      by (subst get_patterns_map.simps) (simp add: index_of_entries_def Let_def)
  next
    case (Inr ps)
    let ?step = "\<lambda>pattern walked.
                  (case walked of
                     Inl e \<Rightarrow> Inl e
                   | Inr patterns_map \<Rightarrow>
                       (case pattern of
                          NestedResolver r \<Rightarrow>
                            (case get_patterns_map r (Some (inherited ++\<^sub>f default_kwargs r)) of
                               Inl e \<Rightarrow> Inl e
                             | Inr nested \<Rightarrow> Inr (patterns_map ++\<^sub>f nested))
                        | RegexURLPattern nm cb cbs dargs \<Rightarrow>
                            (let pattern_args = inherited ++\<^sub>f dargs in
                             case (case nm of
                                     None \<Rightarrow> Inr patterns_map
                                   | Some n \<Rightarrow>
                                       (case cb of
                                          Inl e \<Rightarrow> Inl e
                                        | Inr v \<Rightarrow> Inr (fmupd n (v, pattern_args) patterns_map))) of
                               Inl e \<Rightarrow> Inl e
                             | Inr named \<Rightarrow>
                                 (case cbs of
                                    None \<Rightarrow> Inr named
                                  | Some s \<Rightarrow>
                                      (case cb of
                                         Inl e \<Rightarrow> Inl e
                                       | Inr v \<Rightarrow> Inr (fmupd s (v, pattern_args) named))))))"
    have ups: "url_patterns resolver = Inr ps"
      using r Inr by simp
    have step: "?step p (Inr acc) = index_of_entries (pattern_entries inherited p) acc"
      if "p \<in> set ps" for p acc
    proof (cases p)
      case (RegexURLPattern nm cb cbs dargs)
      then show ?thesis
        by (simp add: Let_def pattern_step_as_entries del: pattern_entries.simps
              add: pattern_entries.simps(1))
    next
      case (NestedResolver r')
      from "1.IH" [OF inherited_def ups that NestedResolver]
      have "get_patterns_map r' (Some (inherited ++\<^sub>f default_kwargs r')) =
          index_of_entries (resolver_entries (inherited ++\<^sub>f default_kwargs r') r') fmempty"
        by simp
      with NestedResolver show ?thesis
        by (simp add: index_of_entries_def split: sum.splits)
    qed
    have "get_patterns_map resolver default_args_opt = fold ?step ps (Inr fmempty)"
      unfolding inherited_def by (subst get_patterns_map.simps) (simp add: ups Let_def)
    also have "\<dots> = index_of_entries (collect (map (pattern_entries inherited) ps)) fmempty"
    proof (rule fold_as_entries)
      show "?step p (Inr acc) = index_of_entries (pattern_entries inherited p) acc"
        if "p \<in> set ps" for p acc
        using that by (rule step)
      show "?step p (Inl e) = Inl e" for p e
        by simp
    qed
    finally have walked: "get_patterns_map resolver default_args_opt =
        index_of_entries (collect (map (pattern_entries inherited) ps)) fmempty" .
    have "resolver_entries inherited resolver = collect (map (pattern_entries inherited) ps)"
      by (simp only: r Inr resolver_entries.simps)
    with walked show ?thesis
      by (simp only: inherited_def)
  qed
qed

lemma map_of_rev_last:
  "k \<notin> fst ` set after \<Longrightarrow> map_of (rev (before @ (k, v) # after)) k = Some v"
proof -
  assume "k \<notin> fst ` set after"
  then have "map_of (rev after) k = None"
    by (simp add: map_of_eq_None_iff)
  then show ?thesis
    by (simp add: map_add_def)
qed

lemma fmdom_fmap_of_list_iff: "(k |\<in>| fmdom (fmap_of_list es)) = (k \<in> fst ` set es)"
proof -
  have "(k |\<in>| fmdom (fmap_of_list es)) = (\<exists>a. map_of es k = Some a)"
    by (simp only: fmlookup_dom_iff fmlookup_of_list)
  also have "\<dots> = (map_of es k \<noteq> None)"
    by blast
  also have "\<dots> = (k \<in> fst ` set es)"
    by (simp only: map_of_eq_None_iff not_not)
  finally show ?thesis .
qed

lemma index_of_entries_empty:
  "index_of_entries walked fmempty =
     (case walked of Inl e \<Rightarrow> Inl e | Inr es \<Rightarrow> Inr (fmap_of_list (rev es)))"
  by (simp add: index_of_entries_def split: sum.splits)

text \<open>
  Claim C2, as amended. The walk either raises, with the first error that reading
  \<open>url_patterns\<close> or a callback gives in the order of the walk, or returns the list of
  the route table's entries read so that a later entry replaces an earlier one with the
  same key. In the index so built the keys are exactly the names and the recorded
  callback paths of the patterns, and under a key it holds the callback and the merged
  default arguments of the last pattern, in the order of the walk, that is known by
  that key. The default arguments are merged as \<open>resolver_entries\<close> says: those of the
  enclosing nested resolvers, outermost first, then the pattern's own, the inner value
  winning on a shared key.
\<close>

theorem get_patterns_map_last_entry_wins:
  "get_patterns_map r dflt =
     (case resolver_entries (case dflt of None \<Rightarrow> fmempty | Some d \<Rightarrow> d) r of
        Inl e \<Rightarrow> Inl e
      | Inr es \<Rightarrow> Inr (fmap_of_list (rev es))) \<and>
   (\<forall>es. resolver_entries (case dflt of None \<Rightarrow> fmempty | Some d \<Rightarrow> d) r = Inr es \<longrightarrow>
      (\<exists>m. get_patterns_map r dflt = Inr m \<and>
           (\<forall>k. (k |\<in>| fmdom m) = (k \<in> fst ` set es)) \<and>
           (\<forall>before k v after.
              es = before @ (k, v) # after \<and> k \<notin> fst ` set after \<longrightarrow>
              fmlookup m k = Some v)))"
proof (intro conjI allI impI)
  show "get_patterns_map r dflt =
     (case resolver_entries (case dflt of None \<Rightarrow> fmempty | Some d \<Rightarrow> d) r of
        Inl e \<Rightarrow> Inl e
      | Inr es \<Rightarrow> Inr (fmap_of_list (rev es)))"
    by (simp only: get_patterns_map_entries index_of_entries_empty)
next
  fix es
  assume es: "resolver_entries (case dflt of None \<Rightarrow> fmempty | Some d \<Rightarrow> d) r = Inr es"
  then have built: "get_patterns_map r dflt = Inr (fmap_of_list (rev es))"
    by (simp add: get_patterns_map_entries index_of_entries_empty)
  have keys: "(k |\<in>| fmdom (fmap_of_list (rev es))) = (k \<in> fst ` set es)" for k
    by (simp only: fmdom_fmap_of_list_iff set_rev)
  have last: "fmlookup (fmap_of_list (rev es)) k = Some v"
    if "es = before @ (k, v) # after \<and> k \<notin> fst ` set after" for before k v after
  proof -
    from that have e: "es = before @ (k, v) # after" and n: "k \<notin> fst ` set after"
      by blast+
    from map_of_rev_last [OF n, of before v] e show ?thesis
      by (simp only: fmlookup_of_list)
  qed
  from built keys last
  show "\<exists>m. get_patterns_map r dflt = Inr m \<and>
           (\<forall>k. (k |\<in>| fmdom m) = (k \<in> fst ` set es)) \<and>
           (\<forall>before k v after.
              es = before @ (k, v) # after \<and> k \<notin> fst ` set after \<longrightarrow>
              fmlookup m k = Some v)"
    by blast
qed

text \<open>On the small site: the archive pattern inherits \<open>section\<close> from the resolver that
  includes it, and its own \<open>page\<close> replaces the resolver's.\<close>

theorem get_patterns_map_last_entry_wins_witness:
  "resolver_entries fmempty site_urlconf =
     Inr ([(''home'', ViewFunc 1, fmempty)] @
          (''archive'', ViewFunc 2,
             fmap_of_list [(''section'', PyStr ''blog''), (''page'', PyInt 2)]) #
          [(''blog.views.archive'', ViewFunc 2,
             fmap_of_list [(''section'', PyStr ''blog''), (''page'', PyInt 2)])]) \<and>
   ''archive'' \<notin> fst ` set [(''blog.views.archive'', ViewFunc 2,
        fmap_of_list [(''section'', PyStr ''blog''), (''page'', PyInt 2)])] \<and>
   (\<exists>m. get_patterns_map site_urlconf None = Inr m \<and>
        fmlookup m ''archive'' =
          Some (ViewFunc 2, fmap_of_list [(''section'', PyStr ''blog''), (''page'', PyInt 2)]))"
proof -
  have e: "resolver_entries (case None of None \<Rightarrow> fmempty | Some d \<Rightarrow> d) site_urlconf =
     Inr ([(''home'', ViewFunc 1, fmempty)] @
          (''archive'', ViewFunc 2,
             fmap_of_list [(''section'', PyStr ''blog''), (''page'', PyInt 2)]) #
          [(''blog.views.archive'', ViewFunc 2,
             fmap_of_list [(''section'', PyStr ''blog''), (''page'', PyInt 2)])])"
    by code_simp
  have n: "''archive'' \<notin> fst ` set [(''blog.views.archive'', ViewFunc 2,
        fmap_of_list [(''section'', PyStr ''blog''), (''page'', PyInt 2)])]"
    by simp
  from get_patterns_map_last_entry_wins [of site_urlconf None] e n
  have "\<exists>m. get_patterns_map site_urlconf None = Inr m \<and>
        fmlookup m ''archive'' =
          Some (ViewFunc 2, fmap_of_list [(''section'', PyStr ''blog''), (''page'', PyInt 2)])"
    by blast
  with e n show ?thesis
    by simp
qed

text \<open>
  Claim C2, as stated, fails where two patterns share a name: the first pattern of this
  route table is named \<open>entry\<close> and calls view 1, yet the index maps \<open>entry\<close> to
  view 2, the callback of the second.
\<close>

theorem get_patterns_map_shared_name_counterexample:
  "url_patterns twice_named_urlconf =
     Inr [RegexURLPattern (Some ''entry'') (Inr (ViewFunc 1)) None fmempty,
          RegexURLPattern (Some ''entry'') (Inr (ViewFunc 2)) None fmempty] \<and>
   get_patterns_map twice_named_urlconf None
     = Inr (fmap_of_list [(''entry'', ViewFunc 2, fmempty)]) \<and>
   fmlookup (fmap_of_list [(''entry'', ViewFunc 2, fmempty)]) ''entry''
     \<noteq> Some (ViewFunc 1, fmempty)"
proof -
  have m: "url_patterns twice_named_urlconf =
     Inr [RegexURLPattern (Some ''entry'') (Inr (ViewFunc 1)) None fmempty,
          RegexURLPattern (Some ''entry'') (Inr (ViewFunc 2)) None fmempty]"
    by (simp add: twice_named_urlconf_def)
  have l: "get_patterns_map twice_named_urlconf None
             = Inr (fmap_of_list [(''entry'', ViewFunc 2, fmempty)])"
    by code_simp
  have d: "fmlookup (fmap_of_list [(''entry'', ViewFunc 2, fmempty)]) ''entry''
             \<noteq> Some (ViewFunc 1, fmempty)"
    by (simp add: fmlookup_of_list)
  from m l d show ?thesis
    by simp
qed

section \<open>The cache is filled by the first walk that completes, and kept\<close>

lemma lookups_Some: "lookups calls (Some m) = Some m"
  by (induction calls) (auto simp: get_view_and_default_args_def built_cache_def)

text \<open>
  Claim C3, as amended. A lookup on the empty cache walks the route table it is given:
  if the walk completes, the lookup leaves the index it built in the cache; if the walk
  raises, the lookup raises that error and leaves the cache empty, so that the next
  lookup walks again. A lookup that finds the cache filled leaves it as it is and gives
  the same result whatever the route table has become, so it reads the cached index and
  builds nothing: once filled, the cache is never assigned again, through any run of
  lookups.
\<close>

theorem view_name_cache_built_once:
  "(\<forall>built. get_patterns_map root None = Inr built \<longrightarrow>
      snd (get_view_and_default_args root vname None) = Some built \<and>
      lookups ((root, vname) # rest) None = Some built) \<and>
   (\<forall>e. get_patterns_map root None = Inl e \<longrightarrow>
      get_view_and_default_args root vname None = (Inl e, None) \<and>
      lookups ((root, vname) # rest) None = lookups rest None) \<and>
   snd (get_view_and_default_args root vname (Some m)) = Some m \<and>
   get_view_and_default_args root vname (Some m)
     = get_view_and_default_args root' vname (Some m) \<and>
   lookups rest (Some m) = Some m"
  by (simp add: get_view_and_default_args_def built_cache_def lookups_Some)

text \<open>Three lookups in a row, the later two against another route table: the cache
  still holds the index of the small site, which has no \<open>entry\<close>.\<close>

theorem view_name_cache_built_once_witness:
  "get_patterns_map site_urlconf None = Inr site_index \<and>
   lookups [(site_urlconf, ''home''), (twice_named_urlconf, ''entry''),
            (twice_named_urlconf, ''home'')] None = Some site_index \<and>
   fmlookup site_index ''entry'' = None"
proof -
  have b: "get_patterns_map site_urlconf None = Inr site_index"
    by code_simp
  have n: "fmlookup site_index ''entry'' = None"
    by code_simp
  from view_name_cache_built_once [of site_urlconf "''home''"
      "[(twice_named_urlconf, ''entry''), (twice_named_urlconf, ''home'')]"] b n
  show ?thesis
    by simp
qed

text \<open>
  Claim C3, as stated, fails: on a route table whose second pattern names a view that
  cannot be imported, the first lookup builds nothing and leaves the cache empty, and so
  does a second one; the cache is filled only by the lookup that is given a route table
  whose walk completes.
\<close>

theorem view_name_cache_unbuilt_counterexample:
  "get_view_and_default_args broken_urlconf ''home'' None
     = (Inl (ViewDoesNotExist ''feeds.views.latest''), None) \<and>
   lookups [(broken_urlconf, ''home''), (broken_urlconf, ''home'')] None = None \<and>
   lookups [(broken_urlconf, ''home''), (site_urlconf, ''home'')] None = Some site_index"
proof -
  have a: "get_view_and_default_args broken_urlconf ''home'' None
     = (Inl (ViewDoesNotExist ''feeds.views.latest''), None)"
    by code_simp
  have b: "lookups [(broken_urlconf, ''home''), (broken_urlconf, ''home'')] None = None"
    by code_simp
  have c: "lookups [(broken_urlconf, ''home''), (site_urlconf, ''home'')] None
             = Some site_index"
    by code_simp
  from a b c show ?thesis
    by simp
qed

section \<open>A lookup on the index fails exactly on a name it does not have\<close>

text \<open>
  Claim C4, as amended. When the index is there, in the cache or built by a walk that
  completes, looking a name up raises if and only if the name is not a key of the index;
  what is raised is the \<open>KeyError\<close> that names it; and for a name that is a key, the
  lookup returns the pair stored under it. When the cache is empty and the walk of the
  route table raises, the lookup raises the error of the walk, whatever the name.
\<close>

theorem lookup_raises_iff_absent:
  "(\<forall>index. built_cache root c = Inr index \<longrightarrow>
      (isl (fst (get_view_and_default_args root vname c)) \<longleftrightarrow> vname |\<notin>| fmdom index) \<and>
      (\<forall>e. fst (get_view_and_default_args root vname c) = Inl e \<longrightarrow>
         e = KeyError (vname @ '' does not match any urlpatterns'')) \<and>
      (\<forall>entry. fmlookup index vname = Some entry \<longrightarrow>
         fst (get_view_and_default_args root vname c) = Inr entry)) \<and>
   (\<forall>e. built_cache root c = Inl e \<longrightarrow>
      fst (get_view_and_default_args root vname c) = Inl e)"
  by (auto simp: get_view_and_default_args_def fmdom_notI fmdom_notD
        intro: fmdomI split: option.splits)

text \<open>On the small site, \<open>nosuch\<close> is not a key and its lookup raises; \<open>home\<close> is a
  key and its lookup returns the stored pair.\<close>

theorem lookup_raises_iff_absent_witness:
  "built_cache site_urlconf None = Inr site_index \<and>
   fst (get_view_and_default_args site_urlconf ''nosuch'' None)
     = Inl (KeyError ''nosuch does not match any urlpatterns'') \<and>
   ''nosuch'' |\<notin>| fmdom site_index \<and>
   fmlookup site_index ''home'' = Some (ViewFunc 1, fmempty) \<and>
   fst (get_view_and_default_args site_urlconf ''home'' None) = Inr (ViewFunc 1, fmempty)"
proof -
  have built: "built_cache site_urlconf None = Inr site_index"
    by code_simp
  have absent: "''nosuch'' |\<notin>| fmdom site_index"
    by code_simp
  have present: "fmlookup site_index ''home'' = Some (ViewFunc 1, fmempty)"
    by code_simp
  from lookup_raises_iff_absent [of site_urlconf None "''nosuch''"] built absent
  have "\<exists>e. fst (get_view_and_default_args site_urlconf ''nosuch'' None) = Inl e"
    by (metis isl_def)
  with lookup_raises_iff_absent [of site_urlconf None "''nosuch''"] built
  have raised: "fst (get_view_and_default_args site_urlconf ''nosuch'' None)
     = Inl (KeyError ''nosuch does not match any urlpatterns'')"
    by auto
  from lookup_raises_iff_absent [of site_urlconf None "''home''"] built present
  have found: "fst (get_view_and_default_args site_urlconf ''home'' None)
     = Inr (ViewFunc 1, fmempty)"
    by blast
  from built absent present raised found show ?thesis
    by simp
qed

text \<open>
  Claim C4, as stated, fails: \<open>home\<close> is the name of the first pattern of this route
  table, the view of the second pattern cannot be imported, and looking \<open>home\<close> up
  raises the error of the import, which is not a \<open>KeyError\<close>.
\<close>

theorem lookup_import_error_counterexample:
  "url_patterns broken_urlconf =
     Inr [RegexURLPattern (Some ''home'') (Inr (ViewFunc 1)) None fmempty,
          RegexURLPattern (Some ''feed'') (Inl (ViewDoesNotExist ''feeds.views.latest''))
            (Some ''feeds.views.latest'') fmempty] \<and>
   fst (get_view_and_default_args broken_urlconf ''home'' None)
     = Inl (ViewDoesNotExist ''feeds.views.latest'') \<and>
   fst (get_view_and_default_args broken_urlconf ''home'' None)
     \<noteq> Inl (KeyError ''home does not match any urlpatterns'') \<and>
   fst (get_view_and_default_args broken_urlconf ''home'' None) \<noteq> Inr (ViewFunc 1, fmempty)"
proof -
  have u: "url_patterns broken_urlconf =
     Inr [RegexURLPattern (Some ''home'') (Inr (ViewFunc 1)) None fmempty,
          RegexURLPattern (Some ''feed'') (Inl (ViewDoesNotExist ''feeds.views.latest''))
            (Some ''feeds.views.latest'') fmempty]"
    by (simp add: broken_urlconf_def)
  have r: "fst (get_view_and_default_args broken_urlconf ''home'' None)
     = Inl (ViewDoesNotExist ''feeds.views.latest'')"
    by code_simp
  from u r show ?thesis
    by simp
qed

section \<open>What \<open>render\<close> returns\<close>

text \<open>Once the request variable has resolved and the name has been found, \<open>render\<close> is
  the nest of its three tests.\<close>

lemma render_resolved:
  assumes "resolve_variable dj (request_var self) context = Inr request"
      and "built_cache (get_resolver dj) c = Inr index"
      and "fmlookup index (view_name self) = Some (view, dargs)"
  shows "fst (render dj self context c) =
           (if view_check request view then
              (case fmlookup request ''_view_args'' of
                 None \<Rightarrow> Inl (AttributeError ''_view_args'')
               | Some stashed_args \<Rightarrow>
                   if stashed_args = PyList (resolved_args_of dj self context) then
                     (case fmlookup request ''_view_kwargs'' of
                        None \<Rightarrow> Inl (AttributeError ''_view_kwargs'')
                      | Some stashed_kwargs \<Rightarrow>
                          if stashed_kwargs = PyDict (resolved_kwargs_of dj self context dargs)
                          then Inr (NodeList_render dj (active_nodes self) context)
                          else Inr (inactive_branch dj self context))
                   else Inr (inactive_branch dj self context))
            else Inr (inactive_branch dj self context))"
  using assms
  by (simp add: render_def get_view_and_default_args_def Let_def view_check_def attribute_def
           split: option.splits)




lemma render_unresolved:
  "resolve_variable dj (request_var self) context = Inl e \<Longrightarrow>
   fst (render dj self context c) = Inl e"
  by (simp add: render_def)

lemma render_walk_raised:
  "resolve_variable dj (request_var self) context = Inr request \<Longrightarrow>
   built_cache (get_resolver dj) c = Inl e \<Longrightarrow>
   fst (render dj self context c) = Inl e"
  by (simp add: render_def get_view_and_default_args_def)

lemma render_name_not_found:
  "resolve_variable dj (request_var self) context = Inr request \<Longrightarrow>
   built_cache (get_resolver dj) c = Inr index \<Longrightarrow>
   fmlookup index (view_name self) = None \<Longrightarrow>
   fst (render dj self context c)
     = Inl (KeyError (view_name self @ '' does not match any urlpatterns''))"
  by (simp add: render_def get_view_and_default_args_def Let_def)

text \<open>
  Claim C1, as amended. Whenever the request variable resolves, the view name is a key
  of the index, and the stashed arguments are there to be read when \<open>render\<close> reads
  them, \<open>render\<close> returns the rendering of the active block if all three checks pass,
  and otherwise the rendering of the else block, or the empty string when there is no
  else block. In the remaining cases it raises and renders neither block: the
  framework's error when the request variable does not resolve, the error of the walk
  when the index cannot be built, the \<open>KeyError\<close> of the lookup when the name is not a
  key of the index, and an \<open>AttributeError\<close> when a stashed argument that it reads is
  missing.
\<close>

theorem render_three_checks:
  "(\<forall>request index view dargs.
      resolve_variable dj (request_var self) context = Inr request \<and>
      built_cache (get_resolver dj) c = Inr index \<and>
      fmlookup index (view_name self) = Some (view, dargs) \<and>
      stash_readable request view (resolved_args_of dj self context) \<longrightarrow>
      fst (render dj self context c) =
        Inr (if view_check request view \<and>
                args_check request (resolved_args_of dj self context) \<and>
                kwargs_check request (resolved_kwargs_of dj self context dargs)
             then NodeList_render dj (active_nodes self) context
             else inactive_branch dj self context)) \<and>
   (\<forall>e. resolve_variable dj (request_var self) context = Inl e \<longrightarrow>
      fst (render dj self context c) = Inl e) \<and>
   (\<forall>request e.
      resolve_variable dj (request_var self) context = Inr request \<and>
      built_cache (get_resolver dj) c = Inl e \<longrightarrow>
      fst (render dj self context c) = Inl e) \<and>
   (\<forall>request index.
      resolve_variable dj (request_var self) context = Inr request \<and>
      built_cache (get_resolver dj) c = Inr index \<and>
      fmlookup index (view_name self) = None \<longrightarrow>
      fst (render dj self context c)
        = Inl (KeyError (view_name self @ '' does not match any urlpatterns''))) \<and>
   (\<forall>request index view dargs.
      resolve_variable dj (request_var self) context = Inr request \<and>
      built_cache (get_resolver dj) c = Inr index \<and>
      fmlookup index (view_name self) = Some (view, dargs) \<and>
      \<not> stash_readable request view (resolved_args_of dj self context) \<longrightarrow>
      fst (render dj self context c)
        = Inl (AttributeError (if ''_view_args'' |\<in>| fmdom request
                               then ''_view_kwargs'' else ''_view_args'')))"
proof (intro conjI allI impI)
  fix request index view dargs
  assume a: "resolve_variable dj (request_var self) context = Inr request \<and>
      built_cache (get_resolver dj) c = Inr index \<and>
      fmlookup index (view_name self) = Some (view, dargs) \<and>
      stash_readable request view (resolved_args_of dj self context)"
  then have r: "resolve_variable dj (request_var self) context = Inr request"
    and b: "built_cache (get_resolver dj) c = Inr index"
    and l: "fmlookup index (view_name self) = Some (view, dargs)"
    and s: "stash_readable request view (resolved_args_of dj self context)"
    by blast+
  from s show "fst (render dj self context c) =
        Inr (if view_check request view \<and>
                args_check request (resolved_args_of dj self context) \<and>
                kwargs_check request (resolved_kwargs_of dj self context dargs)
             then NodeList_render dj (active_nodes self) context
             else inactive_branch dj self context)"
    by (auto simp: render_resolved [OF r b l] stash_readable_def args_check_def
          kwargs_check_def dest: fmdom_notI split: option.splits)
next
  fix e
  assume "resolve_variable dj (request_var self) context = Inl e"
  then show "fst (render dj self context c) = Inl e"
    by (rule render_unresolved)
next
  fix request e
  assume "resolve_variable dj (request_var self) context = Inr request \<and>
      built_cache (get_resolver dj) c = Inl e"
  then show "fst (render dj self context c) = Inl e"
    by (blast intro: render_walk_raised)
next
  fix request index
  assume "resolve_variable dj (request_var self) context = Inr request \<and>
      built_cache (get_resolver dj) c = Inr index \<and>
      fmlookup index (view_name self) = None"
  then show "fst (render dj self context c)
        = Inl (KeyError (view_name self @ '' does not match any urlpatterns''))"
    by (blast intro: render_name_not_found)
next
  fix request index view dargs
  assume a: "resolve_variable dj (request_var self) context = Inr request \<and>
      built_cache (get_resolver dj) c = Inr index \<and>
      fmlookup index (view_name self) = Some (view, dargs) \<and>
      \<not> stash_readable request view (resolved_args_of dj self context)"
  then have r: "resolve_variable dj (request_var self) context = Inr request"
    and b: "built_cache (get_resolver dj) c = Inr index"
    and l: "fmlookup index (view_name self) = Some (view, dargs)"
    and s: "\<not> stash_readable request view (resolved_args_of dj self context)"
    by blast+
  from s show "fst (render dj self context c)
        = Inl (AttributeError (if ''_view_args'' |\<in>| fmdom request
                               then ''_view_kwargs'' else ''_view_args''))"
    by (auto simp: render_resolved [OF r b l] stash_readable_def args_check_def
          dest: fmdom_notD intro: fmdomI split: option.splits)
qed

text \<open>On the archive request the three checks pass for the archive tag, whose active
  block is rendered, and the first fails for the home tag, whose else block is rendered.\<close>

theorem render_three_checks_witness:
  "resolve_variable site_django (request_var archive_node) archive_context
     = Inr archive_request \<and>
   built_cache (get_resolver site_django) None = Inr site_index \<and>
   fmlookup site_index (view_name archive_node)
     = Some (ViewFunc 2, fmap_of_list [(''section'', PyStr ''blog''), (''page'', PyInt 2)]) \<and>
   stash_readable archive_request (ViewFunc 2)
     (resolved_args_of site_django archive_node archive_context) \<and>
   fst (render site_django archive_node archive_context None) = Inr ''on'' \<and>
   fst (render site_django home_node archive_context None) = Inr ''off''"
proof -
  let ?dargs = "fmap_of_list [(''section'', PyStr ''blog''), (''page'', PyInt 2)]"
  have h1: "resolve_variable site_django (request_var archive_node) archive_context
              = Inr archive_request"
    by code_simp
  have hb: "built_cache (get_resolver site_django) None = Inr site_index"
    by code_simp
  have h2: "fmlookup site_index (view_name archive_node) = Some (ViewFunc 2, ?dargs)"
    by code_simp
  have h3: "stash_readable archive_request (ViewFunc 2)
              (resolved_args_of site_django archive_node archive_context)"
    by code_simp
  have checks: "view_check archive_request (ViewFunc 2) \<and>
      args_check archive_request (resolved_args_of site_django archive_node archive_context) \<and>
      kwargs_check archive_request
        (resolved_kwargs_of site_django archive_node archive_context ?dargs)"
    by code_simp
  have out: "NodeList_render site_django (active_nodes archive_node) archive_context = ''on''"
    by code_simp
  have g1: "resolve_variable site_django (request_var home_node) archive_context
              = Inr archive_request"
    by code_simp
  have g2: "fmlookup site_index (view_name home_node) = Some (ViewFunc 1, fmempty)"
    by code_simp
  have g3: "stash_readable archive_request (ViewFunc 1)
              (resolved_args_of site_django home_node archive_context)"
    by code_simp
  have other: "\<not> view_check archive_request (ViewFunc 1)"
    by code_simp
  have none: "inactive_branch site_django home_node archive_context = ''off''"
    by code_simp
  from render_three_checks [of site_django archive_node archive_context None] h1 hb h2 h3
  have "fst (render site_django archive_node archive_context None) =
        Inr (if view_check archive_request (ViewFunc 2) \<and>
                args_check archive_request
                  (resolved_args_of site_django archive_node archive_context) \<and>
                kwargs_check archive_request
                  (resolved_kwargs_of site_django archive_node archive_context ?dargs)
             then NodeList_render site_django (active_nodes archive_node) archive_context
             else inactive_branch site_django archive_node archive_context)"
    by blast
  with checks out
  have on: "fst (render site_django archive_node archive_context None) = Inr ''on''"
    by simp
  from render_three_checks [of site_django home_node archive_context None] g1 hb g2 g3
  have "fst (render site_django home_node archive_context None) =
        Inr (if view_check archive_request (ViewFunc 1) \<and>
                args_check archive_request
                  (resolved_args_of site_django home_node archive_context) \<and>
                kwargs_check archive_request
                  (resolved_kwargs_of site_django home_node archive_context fmempty)
             then NodeList_render site_django (active_nodes home_node) archive_context
             else inactive_branch site_django home_node archive_context)"
    by blast
  with other none
  have off: "fst (render site_django home_node archive_context None) = Inr ''off''"
    by simp
  from h1 hb h2 h3 on off show ?thesis
    by simp
qed

text \<open>
  Claim C1, as stated, fails: for a name that the route table does not have, \<open>render\<close>
  raises the \<open>KeyError\<close> of the lookup and renders neither block; and for a request that
  carries the view function without the arguments, it raises on reading them.
\<close>

theorem render_unknown_name_counterexample:
  "fst (render site_django unknown_node archive_context None)
     = Inl (KeyError ''nosuch does not match any urlpatterns'') \<and>
   fst (render site_django unknown_node archive_context None)
     \<noteq> Inr (NodeList_render site_django (active_nodes unknown_node) archive_context) \<and>
   fst (render site_django unknown_node archive_context None)
     \<noteq> Inr (inactive_branch site_django unknown_node archive_context) \<and>
   fst (render site_django archive_node half_stashed_context None)
     = Inl (AttributeError ''_view_args'')"
proof -
  have k: "fst (render site_django unknown_node archive_context None)
     = Inl (KeyError ''nosuch does not match any urlpatterns'')"
    by code_simp
  have a: "fst (render site_django archive_node half_stashed_context None)
     = Inl (AttributeError ''_view_args'')"
    by code_simp
  from k a show ?thesis
    by simp
qed





text \<open>
  Claim C8. Once the first two checks have passed, the stashed keyword arguments are
  compared with the dictionary in which, for every key that the tag passes and the
  urlconf defaults also have, the default value stands in place of the value the tag's
  expression resolved to; so a request whose stashed value under such a key is not the
  default is not active.
\<close>

theorem default_args_override_kwargs:
  assumes "resolve_variable dj (request_var self) context = Inr request"
      and "built_cache (get_resolver dj) c = Inr index"
      and "fmlookup index (view_name self) = Some (view, dargs)"
      and "view_check request view"
      and "args_check request (resolved_args_of dj self context)"
      and "fmlookup request ''_view_kwargs'' = Some (PyDict stashed)"
      and "k |\<in>| fmdom (kwargs self)"
      and "fmlookup dargs k = Some v"
  shows "fmlookup (resolved_kwargs_of dj self context dargs) k = Some v \<and>
         fst (render dj self context c) =
           Inr (if stashed = resolved_kwargs_of dj self context dargs
                then NodeList_render dj (active_nodes self) context
                else inactive_branch dj self context) \<and>
         (fmlookup stashed k \<noteq> Some v \<longrightarrow>
            fst (render dj self context c) = Inr (inactive_branch dj self context))"
proof -
  have over: "fmlookup (resolved_kwargs_of dj self context dargs) k = Some v"
    using assms(8) fmdomI [OF assms(8)] by (simp add: resolved_kwargs_of_def)
  have test: "fst (render dj self context c) =
           Inr (if stashed = resolved_kwargs_of dj self context dargs
                then NodeList_render dj (active_nodes self) context
                else inactive_branch dj self context)"
    using assms(4,5,6) by (simp add: render_resolved [OF assms(1,2,3)] args_check_def)
  have "fmlookup stashed k \<noteq> Some v \<Longrightarrow> stashed \<noteq> resolved_kwargs_of dj self context dargs"
    using over by auto
  with over test show ?thesis
    by simp
qed

text \<open>The tag passes \<open>page=seven\<close>, which resolves to 7; the urlconf default is 2; the
  request that was routed with page 2 is active.\<close>

theorem default_args_override_kwargs_witness:
  "fmlookup (kwargs archive_node) ''page'' = Some ''seven'' \<and>
   FilterExpression_resolve site_django ''seven'' archive_context = PyInt 7 \<and>
   fmlookup (resolved_kwargs_of site_django archive_node archive_context
      (fmap_of_list [(''section'', PyStr ''blog''), (''page'', PyInt 2)])) ''page''
     = Some (PyInt 2) \<and>
   fst (render site_django archive_node archive_context None) = Inr ''on''"
proof -
  let ?dargs = "fmap_of_list [(''section'', PyStr ''blog''), (''page'', PyInt 2)]"
  have h1: "resolve_variable site_django (request_var archive_node) archive_context
              = Inr archive_request"
    by code_simp
  have hb: "built_cache (get_resolver site_django) None = Inr site_index"
    by code_simp
  have h2: "fmlookup site_index (view_name archive_node) = Some (ViewFunc 2, ?dargs)"
    by code_simp
  have h3: "view_check archive_request (ViewFunc 2)"
    by code_simp
  have h4: "args_check archive_request (resolved_args_of site_django archive_node archive_context)"
    by code_simp
  have h5: "fmlookup archive_request ''_view_kwargs'' = Some (PyDict ?dargs)"
    by code_simp
  have h6: "''page'' |\<in>| fmdom (kwargs archive_node)"
    by code_simp
  have h7: "fmlookup ?dargs ''page'' = Some (PyInt 2)"
    by code_simp
  have tmpl: "fmlookup (kwargs archive_node) ''page'' = Some ''seven''"
    by code_simp
  have seven: "FilterExpression_resolve site_django ''seven'' archive_context = PyInt 7"
    by code_simp
  have same: "?dargs = resolved_kwargs_of site_django archive_node archive_context ?dargs"
    by code_simp
  have out: "NodeList_render site_django (active_nodes archive_node) archive_context = ''on''"
    by code_simp
  from default_args_override_kwargs [OF h1 hb h2 h3 h4 h5 h6 h7] same out tmpl seven
  show ?thesis
    by simp
qed

text \<open>
  Claim C9. For a request without the attribute \<open>_view_func\<close>, whatever else it has or
  lacks, and a name that resolves to a view that is not \<open>None\<close>, \<open>render\<close> returns the
  inactive output: the attributes \<open>_view_args\<close> and \<open>_view_kwargs\<close> play no part, and
  no attribute error is raised.
\<close>

theorem render_without_stashed_view:
  assumes "resolve_variable dj (request_var self) context = Inr request"
      and "''_view_func'' |\<notin>| fmdom request"
      and "built_cache (get_resolver dj) c = Inr index"
      and "fmlookup index (view_name self) = Some (view, dargs)"
      and "view \<noteq> ViewNone"
  shows "fst (render dj self context c) = Inr (inactive_branch dj self context)"
proof -
  from assms(2) have "getattr request ''_view_func'' PyNone = PyNone"
    by (simp add: getattr_def fmdom_notD)
  moreover from assms(5) have "view_obj view \<noteq> PyNone"
    by (cases view) simp_all
  ultimately have "\<not> view_check request view"
    by (simp add: view_check_def)
  then show ?thesis
    by (simp add: render_resolved [OF assms(1,3,4)])
qed

text \<open>The bare request has none of the three attributes, and the else block is
  rendered.\<close>

theorem render_without_stashed_view_witness:
  "resolve_variable site_django (request_var archive_node) bare_context = Inr bare_request \<and>
   ''_view_func'' |\<notin>| fmdom bare_request \<and>
   ''_view_args'' |\<notin>| fmdom bare_request \<and>
   ''_view_kwargs'' |\<notin>| fmdom bare_request \<and>
   built_cache (get_resolver site_django) None = Inr site_index \<and>
   fmlookup site_index (view_name archive_node)
     = Some (ViewFunc 2, fmap_of_list [(''section'', PyStr ''blog''), (''page'', PyInt 2)]) \<and>
   ViewFunc 2 \<noteq> ViewNone \<and>
   fst (render site_django archive_node bare_context None) = Inr ''off''"
proof -
  have h1: "resolve_variable site_django (request_var archive_node) bare_context
              = Inr bare_request"
    by code_simp
  have h2: "''_view_func'' |\<notin>| fmdom bare_request"
    by code_simp
  have h2a: "''_view_args'' |\<notin>| fmdom bare_request"
    by code_simp
  have h2b: "''_view_kwargs'' |\<notin>| fmdom bare_request"
    by code_simp
  have hb: "built_cache (get_resolver site_django) None = Inr site_index"
    by code_simp
  have h3: "fmlookup site_index (view_name archive_node)
     = Some (ViewFunc 2, fmap_of_list [(''section'', PyStr ''blog''), (''page'', PyInt 2)])"
    by code_simp
  have h4: "ViewFunc 2 \<noteq> ViewNone"
    by simp
  have out: "inactive_branch site_django archive_node bare_context = ''off''"
    by code_simp
  from render_without_stashed_view [OF h1 h2 hb h3 h4] out
  have "fst (render site_django archive_node bare_context None) = Inr ''off''"
    by simp
  with h1 h2 h2a h2b hb h3 show ?thesis
    by simp
qed

section \<open>The two tags\<close>

lemma split_not_Nil: "split sep s \<noteq> []"
  by (induction s) (auto split: list.splits)

text \<open>The fields are one more than the separators, so a tag has fewer than three fields
  exactly when its contents hold fewer than two spaces.\<close>

lemma length_split: "length (split sep s) = Suc (count_list s sep)"
  by (induction s) (auto split: list.splits simp: split_not_Nil)

lemma do_activeif_node:
  assumes "do_activeif dj tok = Inr node"
  shows "request_var node = ''request'' \<and> active_nodes node = [TextNode active_class] \<and>
         inactive_nodes node = None \<and> view_name node = split CHR '' '' (contents tok) ! 1"
  using assms
  by (auto simp: do_activeif_def Let_def split: if_splits sum.splits)

text \<open>
  Claim C6, as amended. For the node that \<open>do_activeif\<close> builds: whenever the context
  variable \<open>request\<close> resolves, the view name is a key of the index, and the stashed
  arguments are there to be read when \<open>render\<close> reads them, rendering the node returns
  the class string \<open>active_class\<close> if the three checks pass on that request, and
  the empty string otherwise. When the view name is not a key of the index, rendering
  the node raises the \<open>KeyError\<close> of the lookup.
\<close>

theorem activeif_emits_class:
  assumes "do_activeif dj tok = Inr node"
      and "resolve_variable dj ''request'' context = Inr request"
  shows "(\<forall>index view dargs.
            built_cache (get_resolver dj) c = Inr index \<and>
            fmlookup index (view_name node) = Some (view, dargs) \<and>
            stash_readable request view (resolved_args_of dj node context) \<longrightarrow>
            fst (render dj node context c) =
              Inr (if view_check request view \<and>
                      args_check request (resolved_args_of dj node context) \<and>
                      kwargs_check request (resolved_kwargs_of dj node context dargs)
                   then active_class else [])) \<and>
         (\<forall>index.
            built_cache (get_resolver dj) c = Inr index \<and>
            fmlookup index (view_name node) = None \<longrightarrow>
            fst (render dj node context c)
              = Inl (KeyError (view_name node @ '' does not match any urlpatterns'')))"
proof -
  note nd = do_activeif_node [OF assms(1)]
  from nd assms(2) have res: "resolve_variable dj (request_var node) context = Inr request"
    by simp
  from nd have act: "NodeList_render dj (active_nodes node) context = active_class"
    by (simp add: NodeList_render_def)
  from nd have inact: "inactive_branch dj node context = []"
    by (simp add: inactive_branch_def)
  have found: "fst (render dj node context c) =
              Inr (if view_check request view \<and>
                      args_check request (resolved_args_of dj node context) \<and>
                      kwargs_check request (resolved_kwargs_of dj node context dargs)
                   then active_class else [])"
    if b: "built_cache (get_resolver dj) c = Inr index"
      and l: "fmlookup index (view_name node) = Some (view, dargs)"
      and s: "stash_readable request view (resolved_args_of dj node context)"
    for index view dargs
    using s
    by (auto simp: render_resolved [OF res b l] act inact stash_readable_def
          args_check_def kwargs_check_def dest: fmdom_notI split: option.splits)
  have missed: "fst (render dj node context c)
              = Inl (KeyError (view_name node @ '' does not match any urlpatterns''))"
    if "built_cache (get_resolver dj) c = Inr index"
      and "fmlookup index (view_name node) = None"
    for index
    using res that by (rule render_name_not_found)
  from found missed show ?thesis
    by blast
qed

text \<open>On the archive request, \<open>activeif archive\<close> emits the class and \<open>activeif home\<close>
  emits nothing.\<close>

theorem activeif_emits_class_witness:
  "do_activeif site_django (Token ''activeif archive'') = Inr activeif_archive_node \<and>
   fst (render site_django activeif_archive_node archive_context None) = Inr active_class \<and>
   do_activeif site_django (Token ''activeif home'') = Inr activeif_home_node \<and>
   fst (render site_django activeif_home_node archive_context None) = Inr []"
proof -
  let ?dargs = "fmap_of_list [(''section'', PyStr ''blog''), (''page'', PyInt 2)]"
  have p1: "do_activeif site_django (Token ''activeif archive'') = Inr activeif_archive_node"
    by code_simp
  have p2: "do_activeif site_django (Token ''activeif home'') = Inr activeif_home_node"
    by code_simp
  have rq: "resolve_variable site_django ''request'' archive_context = Inr archive_request"
    by code_simp
  have hb: "built_cache (get_resolver site_django) None = Inr site_index"
    by code_simp
  have l1: "fmlookup site_index (view_name activeif_archive_node) = Some (ViewFunc 2, ?dargs)"
    by code_simp
  have l2: "fmlookup site_index (view_name activeif_home_node) = Some (ViewFunc 1, fmempty)"
    by code_simp
  have s1: "stash_readable archive_request (ViewFunc 2)
              (resolved_args_of site_django activeif_archive_node archive_context)"
    by code_simp
  have s2: "stash_readable archive_request (ViewFunc 1)
              (resolved_args_of site_django activeif_home_node archive_context)"
    by code_simp
  have c1: "view_check archive_request (ViewFunc 2) \<and>
            args_check archive_request
              (resolved_args_of site_django activeif_archive_node archive_context) \<and>
            kwargs_check archive_request
              (resolved_kwargs_of site_django activeif_archive_node archive_context ?dargs)"
    by code_simp
  have c2: "\<not> view_check archive_request (ViewFunc 1)"
    by code_simp
  from activeif_emits_class [OF p1 rq, of None] hb l1 s1
  have "fst (render site_django activeif_archive_node archive_context None) =
          Inr (if view_check archive_request (ViewFunc 2) \<and>
                  args_check archive_request
                    (resolved_args_of site_django activeif_archive_node archive_context) \<and>
                  kwargs_check archive_request
                    (resolved_kwargs_of site_django activeif_archive_node archive_context ?dargs)
               then active_class else [])"
    by blast
  with c1 have r1: "fst (render site_django activeif_archive_node archive_context None)
              = Inr active_class"
    by simp
  from activeif_emits_class [OF p2 rq, of None] hb l2 s2
  have "fst (render site_django activeif_home_node archive_context None) =
          Inr (if view_check archive_request (ViewFunc 1) \<and>
                  args_check archive_request
                    (resolved_args_of site_django activeif_home_node archive_context) \<and>
                  kwargs_check archive_request
                    (resolved_kwargs_of site_django activeif_home_node archive_context fmempty)
               then active_class else [])"
    by blast
  with c2 have r2: "fst (render site_django activeif_home_node archive_context None) = Inr []"
    by simp
  from p1 p2 r1 r2 show ?thesis
    by simp
qed

text \<open>
  Claim C6, as stated, fails: \<open>activeif nosuch\<close> names no pattern of the route table,
  the request is bound, the view is not active, and rendering the node raises the
  \<open>KeyError\<close> of the lookup where the claim has the empty string.
\<close>

theorem activeif_unknown_name_counterexample:
  "do_activeif site_django (Token ''activeif nosuch'') = Inr activeif_unknown_node \<and>
   resolve_variable site_django ''request'' archive_context = Inr archive_request \<and>
   fst (render site_django activeif_unknown_node archive_context None)
     = Inl (KeyError ''nosuch does not match any urlpatterns'') \<and>
   fst (render site_django activeif_unknown_node archive_context None) \<noteq> Inr active_class \<and>
   fst (render site_django activeif_unknown_node archive_context None) \<noteq> Inr []"
proof -
  have p: "do_activeif site_django (Token ''activeif nosuch'') = Inr activeif_unknown_node"
    by code_simp
  have rq: "resolve_variable site_django ''request'' archive_context = Inr archive_request"
    by code_simp
  have r: "fst (render site_django activeif_unknown_node archive_context None)
     = Inl (KeyError ''nosuch does not match any urlpatterns'')"
    by code_simp
  from p rq r show ?thesis
    by simp
qed

text \<open>
  Claim C10, as amended. Once the framework has parsed the blocks of the tag,
  \<open>do_ifactive\<close> raises its own \<open>TemplateSyntaxError\<close> when the contents of the tag
  token, cut at every single space, give fewer than three fields. With three fields or
  more it compiles the remaining fields as arguments: if that raises, the error is
  passed on; if it succeeds, the result is the \<open>ActiveNode\<close> whose request variable
  and view name are the second and the third field, with the compiled arguments and the
  parsed blocks.
\<close>

theorem do_ifactive_arity:
  assumes "parse_blocks dj parser = Inr ((active, inactive), parser')"
  shows "(length (split CHR '' '' (contents tok)) < 3 \<longrightarrow>
            do_ifactive dj parser tok =
              Inl (TemplateSyntaxError (arity_message (split CHR '' '' (contents tok) ! 0)))) \<and>
         (\<forall>as kws. 3 \<le> length (split CHR '' '' (contents tok)) \<and>
            parse_url_args dj (drop 3 (split CHR '' '' (contents tok))) = Inr (as, kws) \<longrightarrow>
            do_ifactive dj parser tok =
              Inr (\<lparr>request_var = split CHR '' '' (contents tok) ! 1,
                    view_name = split CHR '' '' (contents tok) ! 2,
                    args = as, kwargs = kws,
                    active_nodes = active, inactive_nodes = inactive\<rparr>, parser')) \<and>
         (\<forall>e. 3 \<le> length (split CHR '' '' (contents tok)) \<and>
            parse_url_args dj (drop 3 (split CHR '' '' (contents tok))) = Inl e \<longrightarrow>
            do_ifactive dj parser tok = Inl e)"
  using assms by (simp add: do_ifactive_def Let_def)

text \<open>A tag with one argument is refused; a tag with the request, the name and a keyword
  argument gives the node.\<close>

theorem do_ifactive_arity_witness:
  "parse_blocks site_django ifactive_tokens =
     Inr (([FrameworkNode ''yes''], Some [FrameworkNode ''no'']), [Token ''tail'']) \<and>
   length (split CHR '' '' ''ifactive request'') < 3 \<and>
   do_ifactive site_django ifactive_tokens (Token ''ifactive request'') =
     Inl (TemplateSyntaxError (arity_message ''ifactive'')) \<and>
   3 \<le> length (split CHR '' '' ''ifactive request archive page=seven'') \<and>
   do_ifactive site_django ifactive_tokens (Token ''ifactive request archive page=seven'') =
     Inr (\<lparr>request_var = ''request'', view_name = ''archive'', args = [],
           kwargs = fmupd ''page'' ''seven'' fmempty,
           active_nodes = [FrameworkNode ''yes''],
           inactive_nodes = Some [FrameworkNode ''no'']\<rparr>, [Token ''tail''])"
proof -
  have pb: "parse_blocks site_django ifactive_tokens =
     Inr (([FrameworkNode ''yes''], Some [FrameworkNode ''no'']), [Token ''tail''])"
    by code_simp
  have s2: "split CHR '' '' (contents (Token ''ifactive request'')) = [''ifactive'', ''request'']"
    by code_simp
  have s4: "split CHR '' '' (contents (Token ''ifactive request archive page=seven''))
              = [''ifactive'', ''request'', ''archive'', ''page=seven'']"
    by code_simp
  have pa: "parse_url_args site_django [''page=seven'']
              = Inr ([], fmupd ''page'' ''seven'' fmempty)"
    by code_simp
  from do_ifactive_arity [OF pb, of "Token ''ifactive request''"] s2
  have a: "do_ifactive site_django ifactive_tokens (Token ''ifactive request'') =
     Inl (TemplateSyntaxError (arity_message ''ifactive''))"
    by simp
  from do_ifactive_arity [OF pb, of "Token ''ifactive request archive page=seven''"] s4 pa
  have b: "do_ifactive site_django ifactive_tokens (Token ''ifactive request archive page=seven'') =
     Inr (\<lparr>request_var = ''request'', view_name = ''archive'', args = [],
           kwargs = fmupd ''page'' ''seven'' fmempty,
           active_nodes = [FrameworkNode ''yes''],
           inactive_nodes = Some [FrameworkNode ''no'']\<rparr>, [Token ''tail''])"
    by simp
  from pb a b s2 s4 show ?thesis
    by simp
qed

text \<open>
  Claim C10, as stated, fails: a tag of four fields whose argument the framework refuses
  to compile raises a \<open>TemplateSyntaxError\<close>, and so does a tag of three fields whose
  block is never closed.
\<close>

theorem do_ifactive_argument_counterexample:
  "length (split CHR '' '' (contents (Token ''ifactive request archive _x''))) = 4 \<and>
   do_ifactive site_django ifactive_tokens (Token ''ifactive request archive _x'') =
     Inl (TemplateSyntaxError ''Variables and attributes may not begin with underscores'') \<and>
   length (split CHR '' '' (contents (Token ''ifactive request archive''))) = 3 \<and>
   do_ifactive site_django [Token ''yes''] (Token ''ifactive request archive'') =
     Inl (TemplateSyntaxError ''Unclosed tag'')"
proof -
  have l: "length (split CHR '' '' (contents (Token ''ifactive request archive _x''))) = 4"
    by code_simp
  have r: "do_ifactive site_django ifactive_tokens (Token ''ifactive request archive _x'') =
     Inl (TemplateSyntaxError ''Variables and attributes may not begin with underscores'')"
    by code_simp
  have l': "length (split CHR '' '' (contents (Token ''ifactive request archive''))) = 3"
    by code_simp
  have r': "do_ifactive site_django [Token ''yes''] (Token ''ifactive request archive'') =
     Inl (TemplateSyntaxError ''Unclosed tag'')"
    by code_simp
  from l r l' r' show ?thesis
    by simp
qed

end
